theory Spec2Isabelle
  imports Main
begin

section \<open>Text as Python sees it\<close>

text \<open>
  A Python \<open>str\<close> is a sequence of Unicode code points, so a string is a list of
  natural numbers here.  \<open>py\<close> turns an ASCII literal into such a list.
\<close>

type_synonym codepoint = nat
type_synonym str = "codepoint list"

definition py :: "string \<Rightarrow> str" where
  "py s = map of_char s"

text \<open>
  The characters that \<open>\s\<close> of a \<open>str\<close> pattern and \<open>str.strip()\<close> treat as
  whitespace (CPython consults the same table for both): the ASCII ones, U+001C..U+001F,
  U+0085, U+00A0, U+1680, U+2000..U+200A, U+2028, U+2029, U+202F, U+205F and U+3000.
\<close>

definition isspace :: "codepoint \<Rightarrow> bool" where
  "isspace c \<longleftrightarrow>
     (9 \<le> c \<and> c \<le> 13) \<or> (28 \<le> c \<and> c \<le> 32) \<or> c = 133 \<or> c = 160 \<or> c = 5760 \<or>
     (8192 \<le> c \<and> c \<le> 8202) \<or> c = 8232 \<or> c = 8233 \<or> c = 8239 \<or> c = 8287 \<or> c = 12288"

definition startswith :: "str \<Rightarrow> str \<Rightarrow> bool" where
  "startswith s p \<longleftrightarrow> take (length p) s = p"

definition endswith :: "str \<Rightarrow> str \<Rightarrow> bool" where
  "endswith s p \<longleftrightarrow> length p \<le> length s \<and> drop (length s - length p) s = p"

definition lstrip :: "str \<Rightarrow> str" where
  "lstrip s = dropWhile isspace s"

definition strip :: "str \<Rightarrow> str" where
  "strip s = rev (dropWhile isspace (rev (dropWhile isspace s)))"

text \<open>\<open>content.split('\n')\<close>: cut at every newline.  The result is never
  empty, so the second branch of the case below is never taken.\<close>

fun split_nl :: "str \<Rightarrow> str list" where
  "split_nl [] = [[]]"
| "split_nl (c # cs) =
     (if c = 10 then [] # split_nl cs
      else (case split_nl cs of
              l # ls \<Rightarrow> (c # l) # ls
            | [] \<Rightarrow> [[c]]))"

text \<open>\<open>'\n'.join(lines)\<close>.\<close>

fun join_nl :: "str list \<Rightarrow> str" where
  "join_nl [] = []"
| "join_nl [l] = l"
| "join_nl (l # m # ls) = l @ 10 # join_nl (m # ls)"

text \<open>
  \<open>re.match(r'^\s*//', line)\<close>, as the backtracking matcher runs it: at each position
  the star first tries to take one more whitespace character, and when the rest fails
  that way it tries the two slashes at the position itself.
\<close>

fun re_match_comment :: "str \<Rightarrow> bool" where
  "re_match_comment [] = False"
| "re_match_comment (c # cs) =
     ((isspace c \<and> re_match_comment cs) \<or> startswith (c # cs) (py ''//''))"

section \<open>The line filter\<close>

text \<open>
  The \<open>for line in lines\<close> loop of \<open>remove_inline_comments\<close>, with
  \<open>processed_lines\<close> as its accumulator: \<open>continue\<close> leaves it as it is, every other
  path appends the line.
\<close>

fun lines_loop :: "str list \<Rightarrow> str list \<Rightarrow> str list" where
  "lines_loop [] processed_lines = processed_lines"
| "lines_loop (line # rest) processed_lines =
     (if re_match_comment line then
        (if \<not> startswith (strip line) (py ''/**'') then lines_loop rest processed_lines
         else lines_loop rest (processed_lines @ [line]))
      else lines_loop rest (processed_lines @ [line]))"

definition processed_lines :: "str \<Rightarrow> str list" where
  "processed_lines content = lines_loop (split_nl content) []"

definition processed_content :: "str \<Rightarrow> str" where
  "processed_content content = join_nl (processed_lines content)"

section \<open>Files\<close>

text \<open>
  What the operating system does with a file is a parameter of the model.  Reading
  (\<open>open(..., 'r')\<close> and \<open>f.read()\<close>) either returns the decoded text or raises an
  exception whose \<open>str()\<close> is the message.  Writing either succeeds, or raises when
  the file is opened (the file stays as it was), or raises after the file was opened
  and thereby truncated, leaving some residue behind.
\<close>

datatype write_fault =
    No_fault
  | Open_fault str
  | Write_fault str "str + str"

record file_state =
  text_of :: "str + str"
  wfault :: write_fault

type_synonym filesystem = "str \<Rightarrow> file_state"

text \<open>
  The state of a run: the file system, the lines printed on standard output, and the
  paths on which \<open>remove_inline_comments\<close> has been called (a trace, kept for the
  statements about which files are visited).  Two more fields describe the stream
  \<open>sys.stdout\<close>, which the run does not change: the code points beyond ASCII that its
  encoding has, and the \<open>str()\<close> of the \<open>UnicodeEncodeError\<close> that writing a line with
  another code point raises.
\<close>

record world =
  files :: filesystem
  stdout :: "str list"
  calls :: "str list"
  stdout_encodes :: "codepoint \<Rightarrow> bool"
  encode_error :: "str \<Rightarrow> str"

text \<open>
  UTF-8 with the error handler \<open>strict\<close>, the usual encoding of \<open>sys.stdout\<close>: every
  code point but the surrogates U+D800..U+DFFF.  A file name that is not valid UTF-8
  reaches the program with such code points in it (\<open>os.walk\<close> decodes names with
  \<open>surrogateescape\<close>).
\<close>

definition utf8_strict :: "codepoint \<Rightarrow> bool" where
  "utf8_strict c \<longleftrightarrow> c < 55296 \<or> 57343 < c"

text \<open>
  \<open>print(line)\<close> on an open stream.  The stream encodes the whole line before it writes
  any of it, so a line with a code point that the encoding lacks raises and prints
  nothing.  Every encoding has the ASCII characters.
\<close>

definition printable :: "world \<Rightarrow> str \<Rightarrow> bool" where
  "printable w line = list_all (\<lambda>c. c < 128 \<or> stdout_encodes w c) line"

definition print :: "str \<Rightarrow> world \<Rightarrow> (str + unit) \<times> world" where
  "print line w =
     (if printable w line then (Inr (), w\<lparr>stdout := stdout w @ [line]\<rparr>)
      else (Inl (encode_error w line), w))"

text \<open>
  \<open>remove_inline_comments(file_path)\<close>: \<open>Inl msg\<close> is an exception that leaves the
  function, \<open>Inr ()\<close> the normal return.  The \<open>print\<close> of its last line can raise as
  well, after the file has been written.
\<close>

definition remove_inline_comments :: "str \<Rightarrow> world \<Rightarrow> (str + unit) \<times> world" where
  "remove_inline_comments file_path w0 =
     (let w = w0\<lparr>calls := calls w0 @ [file_path]\<rparr>;
          f = files w file_path
      in case text_of f of
           Inl msg \<Rightarrow> (Inl msg, w)
         | Inr content \<Rightarrow>
             (case wfault f of
                Open_fault msg \<Rightarrow> (Inl msg, w)
              | Write_fault msg residue \<Rightarrow>
                  (Inl msg, w\<lparr>files := (files w)(file_path := f\<lparr>text_of := residue\<rparr>)\<rparr>)
              | No_fault \<Rightarrow>
                  print (py ''Processed: '' @ file_path)
                    (w\<lparr>files := (files w)
                         (file_path := f\<lparr>text_of := Inr (processed_content content)\<rparr>)\<rparr>)))"

section \<open>The driver\<close>

text \<open>\<open>os.path.join(root, file)\<close> on a POSIX system.\<close>

definition path_join :: "str \<Rightarrow> str \<Rightarrow> str" where
  "path_join a b =
     (if startswith b (py ''/'') then b
      else if a = [] \<or> endswith a (py ''/'') then a @ b
      else a @ py ''/'' @ b)"

text \<open>
  The \<open>try\<close> statement in the body of the inner loop: an exception of
  \<open>remove_inline_comments\<close> is caught and reported with \<open>print\<close>; an exception of that
  \<open>print\<close>, raised inside the handler, is caught by nothing.
\<close>

definition try_file :: "str \<Rightarrow> world \<Rightarrow> (str + unit) \<times> world" where
  "try_file file_path w =
     (case remove_inline_comments file_path w of
        (Inr u, w') \<Rightarrow> (Inr (), w')
      | (Inl e, w') \<Rightarrow> print (py ''Error processing '' @ file_path @ py '': '' @ e) w')"

text \<open>
  The inner loop \<open>for file in files\<close>.  An exception that leaves the \<open>try\<close> statement
  leaves the loop, with the files after it not visited.
\<close>

fun files_loop :: "str \<Rightarrow> str list \<Rightarrow> world \<Rightarrow> (str + unit) \<times> world" where
  "files_loop root [] w = (Inr (), w)"
| "files_loop root (file # rest) w =
     (if endswith file (py ''.ts'') \<or> endswith file (py ''.js'') then
        (let file_path = path_join root file in
         case try_file file_path w of
           (Inr u, w') \<Rightarrow> files_loop root rest w'
         | (Inl e, w') \<Rightarrow> (Inl e, w'))
      else files_loop root rest w)"

text \<open>
  The outer loop over the triples \<open>(root, dirs, files)\<close> that \<open>os.walk\<close> yields.
\<close>

fun walk_loop :: "(str \<times> str list \<times> str list) list \<Rightarrow> world \<Rightarrow> (str + unit) \<times> world" where
  "walk_loop [] w = (Inr (), w)"
| "walk_loop ((root, dirs, fnames) # rest) w =
     (case files_loop root fnames w of
        (Inr u, w') \<Rightarrow> walk_loop rest w'
      | (Inl e, w') \<Rightarrow> (Inl e, w'))"

text \<open>
  \<open>main()\<close>: \<open>argv\<close> is \<open>sys.argv\<close> (the program's name first), \<open>walk\<close> is
  \<open>os.walk\<close> of the machine the program runs on.  The result is the exit status and
  the world the process leaves behind.  \<open>sys.exit(1)\<close> ends the run at once with
  status 1, and so does an exception that nothing catches; a run that reaches the end of
  \<open>main\<close> has status 0.
\<close>

definition main :: "str list \<Rightarrow> (str \<Rightarrow> (str \<times> str list \<times> str list) list) \<Rightarrow> world \<Rightarrow> nat \<times> world" where
  "main argv walk w =
     (if length argv \<noteq> 2 then
        (1, snd (print (py ''Usage: python remove_inline_comments.py <directory>'') w))
      else
        (let directory = argv ! 1 in
         case walk_loop (walk directory) w of
           (Inr u, w') \<Rightarrow> (0, w')
         | (Inl e, w') \<Rightarrow> (1, w')))"

section \<open>Notions used in the statements\<close>

text \<open>
  The filter without the documentation-marker exception: every line that the pattern
  matches is dropped.  The line filter is compared with it below.
\<close>

definition simple_filter :: "str \<Rightarrow> str" where
  "simple_filter content = join_nl (filter (\<lambda>line. \<not> re_match_comment line) (split_nl content))"




section \<open>Whitespace, the pattern and the two markers\<close>

lemma slash_not_space: "\<not> isspace 47"
  by (simp add: isspace_def)

lemma py_slashes: "py ''//'' = [47, 47]"
  by (simp add: py_def)

lemma py_doc: "py ''/**'' = [47, 42, 42]"
  by (simp add: py_def)

lemma re_match_comment_lstrip:
  "re_match_comment l \<longleftrightarrow> startswith (lstrip l) (py ''//'')"
proof (induction l)
  case Nil
  show ?case by (simp add: startswith_def lstrip_def py_slashes)
next
  case (Cons c cs)
  show ?case
  proof (cases "isspace c")
    case True
    then have "c \<noteq> 47" using slash_not_space by auto
    then have "\<not> startswith (c # cs) (py ''//'')"
      by (simp add: startswith_def py_slashes)
    with True Cons show ?thesis by (simp add: lstrip_def)
  next
    case False
    then show ?thesis by (simp add: lstrip_def)
  qed
qed

lemma dropWhile_snoc2:
  assumes "\<not> P a" "\<not> P b"
  shows "\<exists>zs. dropWhile P (xs @ [a, b]) = zs @ [a, b]"
proof (cases "\<forall>x\<in>set xs. P x")
  case True
  then have "dropWhile P (xs @ [a, b]) = [] @ [a, b]"
    using assms by (simp add: dropWhile_append)
  then show ?thesis by blast
next
  case False
  then have "dropWhile P (xs @ [a, b]) = dropWhile P xs @ [a, b]"
    by (auto simp add: dropWhile_append)
  then show ?thesis by blast
qed

lemma strip_of_comment:
  assumes "re_match_comment l"
  shows "\<exists>r. strip l = 47 # 47 # r"
proof -
  from assms have "startswith (lstrip l) (py ''//'')"
    by (simp add: re_match_comment_lstrip)
  then have "take (Suc (Suc 0)) (dropWhile isspace l) = [47, 47]"
    by (simp add: startswith_def lstrip_def py_slashes)
  then obtain r where r: "dropWhile isspace l = 47 # 47 # r"
    by (cases "dropWhile isspace l"; cases "tl (dropWhile isspace l)") auto
  obtain zs where "dropWhile isspace (rev r @ [47, 47]) = zs @ [47, 47]"
    using dropWhile_snoc2 [of isspace 47 47 "rev r"] slash_not_space by blast
  then have "strip l = 47 # 47 # rev zs"
    by (simp add: strip_def r)
  then show ?thesis by blast
qed

lemma doc_exception_dead:
  "re_match_comment l \<Longrightarrow> \<not> startswith (strip l) (py ''/**'')"
  using strip_of_comment [of l] by (auto simp add: startswith_def py_doc)

lemma lines_loop_filter:
  "lines_loop ls acc = acc @ filter (\<lambda>l. \<not> re_match_comment l) ls"
  by (induction ls arbitrary: acc) (simp_all add: doc_exception_dead)

lemma split_nl_nonempty: "split_nl c \<noteq> []"
  by (induction c) (simp_all split: list.split)

lemma split_nl_no_newline: "l \<in> set (split_nl c) \<Longrightarrow> 10 \<notin> set l"
proof (induction c arbitrary: l)
  case Nil
  then show ?case by simp
next
  case (Cons a c)
  obtain h t where ht: "split_nl c = h # t"
    using split_nl_nonempty [of c] by (cases "split_nl c") auto
  show ?case
  proof (cases "a = 10")
    case True
    with Cons show ?thesis by auto
  next
    case False
    with Cons.prems ht have "l = a # h \<or> l \<in> set t" by simp
    then show ?thesis
    proof
      assume "l = a # h"
      moreover have "10 \<notin> set h" using Cons.IH [of h] ht by simp
      ultimately show ?thesis using False by simp
    next
      assume "l \<in> set t"
      then show ?thesis using Cons.IH [of l] ht by simp
    qed
  qed
qed

lemma join_split: "join_nl (split_nl c) = c"
proof (induction c)
  case Nil
  show ?case by simp
next
  case (Cons a c)
  obtain h t where ht: "split_nl c = h # t"
    using split_nl_nonempty [of c] by (cases "split_nl c") auto
  show ?case
  proof (cases "a = 10")
    case True
    with Cons ht show ?thesis by simp
  next
    case False
    with Cons ht show ?thesis by (cases t) simp_all
  qed
qed

lemma split_line: "10 \<notin> set l \<Longrightarrow> split_nl l = [l]"
  by (induction l) auto

lemma split_append: "10 \<notin> set l \<Longrightarrow> split_nl (l @ 10 # r) = l # split_nl r"
  by (induction l) auto

lemma split_join:
  "ls \<noteq> [] \<Longrightarrow> \<forall>l\<in>set ls. 10 \<notin> set l \<Longrightarrow> split_nl (join_nl ls) = ls"
proof (induction ls rule: join_nl.induct)
  case 1
  then show ?case by simp
next
  case (2 l)
  then show ?case by (simp add: split_line)
next
  case (3 l m ls)
  then show ?case by (simp add: split_append)
qed

section \<open>The kept lines\<close>

lemma processed_lines_filter:
  "processed_lines content =
     filter (\<lambda>l. \<not> startswith (lstrip l) (py ''//'')) (split_nl content)"
  by (simp add: processed_lines_def lines_loop_filter re_match_comment_lstrip)

lemma processed_lines_no_newline: "l \<in> set (processed_lines content) \<Longrightarrow> 10 \<notin> set l"
  using split_nl_no_newline [of l content] by (simp add: processed_lines_filter)

lemma split_processed_content:
  "processed_lines content \<noteq> [] \<Longrightarrow>
     split_nl (processed_content content) = processed_lines content"
  unfolding processed_content_def
  by (rule split_join) (simp_all add: processed_lines_no_newline)

lemma split_processed_content_empty:
  "processed_lines content = [] \<Longrightarrow> split_nl (processed_content content) = [[]]"
  by (simp add: processed_content_def)

lemma doc_line_not_comment:
  assumes "startswith (lstrip l) (py ''/**'')"
  shows "\<not> startswith (lstrip l) (py ''//'')"
proof -
  from assms have "take (Suc (Suc (Suc 0))) (lstrip l) = [47, 42, 42]"
    by (simp add: startswith_def py_doc)
  then obtain r where "lstrip l = 47 # 42 # r"
    by (cases "lstrip l"; cases "tl (lstrip l)") auto
  then show ?thesis by (simp add: startswith_def py_slashes)
qed

section \<open>What the filter does to a line\<close>

text \<open>
  C1.  The lines of the input that do not start, after their leading whitespace, with
  the marker \<open>//\<close> are kept as they are and in their order: the output is these
  lines joined by newlines, and when there is at least one of them they are exactly the
  lines of the output.  (When there is none, the output is the empty text.)
\<close>
theorem other_lines_preserved:
  fixes content :: str
  defines "kept \<equiv> filter (\<lambda>l. \<not> startswith (lstrip l) (py ''//'')) (split_nl content)"
  shows "processed_content content = join_nl kept \<and>
         (if kept = [] then processed_content content = []
          else split_nl (processed_content content) = kept)"
  using split_processed_content [of content]
  by (simp add: kept_def processed_content_def processed_lines_filter)

theorem other_lines_preserved_witness:
  "split_nl (processed_content (join_nl
       [py ''const x = 1;'', py ''// drop me'', py ''/** keep me */'', py ''  // also drop'']))
   = [py ''const x = 1;'', py ''/** keep me */'']"
  using other_lines_preserved [of "join_nl
       [py ''const x = 1;'', py ''// drop me'', py ''/** keep me */'', py ''  // also drop'']"]
  by (simp add: py_def startswith_def lstrip_def isspace_def)

text \<open>
  C2.  A line of the input that starts, after its leading whitespace, with \<open>//\<close>, and
  whose trimmed form does not start with \<open>/**\<close>, is not among the lines that the loop
  keeps and is not a line of the output.
\<close>
theorem comment_lines_removed:
  assumes "l \<in> set (split_nl content)"
    and "startswith (lstrip l) (py ''//'')"
    and "\<not> startswith (strip l) (py ''/**'')"
  shows "l \<notin> set (processed_lines content) \<and> l \<notin> set (split_nl (processed_content content))"
proof -
  have a: "l \<notin> set (processed_lines content)"
    using assms(2) by (simp add: processed_lines_filter)
  have "l \<noteq> []" using assms(2) by (auto simp add: startswith_def lstrip_def py_slashes)
  then have "l \<notin> set (split_nl (processed_content content))"
    using a split_processed_content [of content] split_processed_content_empty [of content]
    by (cases "processed_lines content = []") auto
  with a show ?thesis by simp
qed

theorem comment_lines_removed_witness:
  "py ''  // b'' \<in> set (split_nl (join_nl [py ''a'', py ''  // b'', py ''c'']))
   \<and> startswith (lstrip (py ''  // b'')) (py ''//'')
   \<and> \<not> startswith (strip (py ''  // b'')) (py ''/**'')
   \<and> py ''  // b'' \<notin> set (split_nl (processed_content (join_nl [py ''a'', py ''  // b'', py ''c''])))"
proof -
  have 1: "py ''  // b'' \<in> set (split_nl (join_nl [py ''a'', py ''  // b'', py ''c'']))"
    by (simp add: py_def)
  have 2: "startswith (lstrip (py ''  // b'')) (py ''//'')"
    by (simp add: py_def startswith_def lstrip_def isspace_def)
  have 3: "\<not> startswith (strip (py ''  // b'')) (py ''/**'')"
    by (simp add: py_def startswith_def strip_def isspace_def)
  from comment_lines_removed [OF 1 2 3] 1 2 3 show ?thesis by simp
qed

text \<open>
  C3.  A line of the input that starts, after its leading whitespace, with the
  documentation marker \<open>/**\<close> is kept by the loop and is a line of the output.
\<close>
theorem doc_lines_kept:
  assumes "l \<in> set (split_nl content)"
    and "startswith (lstrip l) (py ''/**'')"
  shows "l \<in> set (processed_lines content) \<and> l \<in> set (split_nl (processed_content content))"
proof -
  have a: "l \<in> set (processed_lines content)"
    using assms doc_line_not_comment [of l] by (simp add: processed_lines_filter)
  then have "processed_lines content \<noteq> []" by auto
  then show ?thesis using a by (simp add: split_processed_content)
qed

theorem doc_lines_kept_witness:
  "py '' /** doc */'' \<in> set (split_nl (join_nl [py ''// a'', py '' /** doc */'']))
   \<and> startswith (lstrip (py '' /** doc */'')) (py ''/**'')
   \<and> py '' /** doc */'' \<in> set (split_nl (processed_content (join_nl [py ''// a'', py '' /** doc */''])))"
proof -
  have 1: "py '' /** doc */'' \<in> set (split_nl (join_nl [py ''// a'', py '' /** doc */'']))"
    by (simp add: py_def)
  have 2: "startswith (lstrip (py '' /** doc */'')) (py ''/**'')"
    by (simp add: py_def startswith_def lstrip_def isspace_def)
  from doc_lines_kept [OF 1 2] 1 2 show ?thesis by simp
qed

text \<open>
  C4.  Idempotence: filtering the output of the filter changes nothing, for every
  content.
\<close>
theorem processed_content_idempotent:
  "processed_content (processed_content content) = processed_content content"
proof (cases "processed_lines content = []")
  case True
  then have "processed_content content = []" by (simp add: processed_content_def)
  then show ?thesis
    by (simp add: processed_content_def processed_lines_filter startswith_def lstrip_def py_slashes)
next
  case False
  have "processed_lines (processed_content content) =
          filter (\<lambda>l. \<not> startswith (lstrip l) (py ''//'')) (processed_lines content)"
    using False by (simp add: processed_lines_filter [of "processed_content content"] split_processed_content)
  also have "\<dots> = processed_lines content"
    by (simp add: processed_lines_filter)
  finally show ?thesis by (simp add: processed_content_def)
qed

text \<open>
  C10.  The filter equals \<open>simple_filter\<close>, which drops every line that the pattern
  matches: the trimmed form of a matching line starts with \<open>//\<close> and so never with
  \<open>/**\<close>, hence the branch that would keep a matching line is never taken.
\<close>
theorem doc_exception_never_fires:
  "processed_content content = simple_filter content \<and>
   (\<forall>line. re_match_comment line \<longrightarrow>
      startswith (strip line) (py ''//'') \<and> \<not> startswith (strip line) (py ''/**''))"
proof -
  have "processed_content content = simple_filter content"
    by (simp add: processed_content_def processed_lines_def simple_filter_def lines_loop_filter)
  moreover have "startswith (strip line) (py ''//'')" if "re_match_comment line" for line
    using strip_of_comment [OF that] by (auto simp add: startswith_def py_slashes)
  ultimately show ?thesis using doc_exception_dead by blast
qed

theorem doc_exception_never_fires_witness:
  "processed_content (join_nl [py ''x'', py '' // /**'']) =
     simple_filter (join_nl [py ''x'', py '' // /**''])
   \<and> re_match_comment (py '' // /**'')
   \<and> startswith (strip (py '' // /**'')) (py ''//'')
   \<and> \<not> startswith (strip (py '' // /**'')) (py ''/**'')"
proof -
  have m: "re_match_comment (py '' // /**'')"
    by (simp add: py_def startswith_def isspace_def)
  from doc_exception_never_fires [of "join_nl [py ''x'', py '' // /**'']"] m
  show ?thesis by blast
qed

section \<open>Block comments\<close>

lemma lines_loop_append:
  "lines_loop (pre @ line # post) [] =
     lines_loop pre [] @ (if startswith (lstrip line) (py ''//'') then [] else [line])
       @ lines_loop post []"
  by (simp add: lines_loop_filter re_match_comment_lstrip)

text \<open>
  C5, as the specification states it, fails: a line that lies between the lines
  \<open>/*\<close> and \<open>*/\<close> of a block comment and starts with \<open>//\<close> is examined like every
  other line, and dropped.
\<close>

theorem line_inside_block_dropped:
  "split_nl (join_nl [py ''/*'', py ''// inside'', py ''*/'']) =
     [py ''/*'', py ''// inside'', py ''*/'']
   \<and> split_nl (processed_content (join_nl [py ''/*'', py ''// inside'', py ''*/''])) =
     [py ''/*'', py ''*/'']"
  by (simp add: processed_content_def processed_lines_def py_def startswith_def strip_def
      isspace_def)

text \<open>
  C5, amended.  The filter has no notion of a block comment: what happens to a line
  depends on that line alone.  Whatever lines come before and after it (an opening
  \<open>/*\<close>, a closing \<open>*/\<close>), a line is dropped when it starts, after its leading
  whitespace, with \<open>//\<close>, and kept as it is otherwise; the lines around it are
  filtered as they would be without it.
\<close>

theorem fate_of_line_is_local:
  assumes "\<forall>x\<in>set (pre @ line # post). 10 \<notin> set x"
  shows "processed_lines (join_nl (pre @ line # post)) =
           lines_loop pre [] @ (if startswith (lstrip line) (py ''//'') then [] else [line])
             @ lines_loop post []"
proof -
  have "split_nl (join_nl (pre @ line # post)) = pre @ line # post"
    using assms by (intro split_join) simp_all
  then show ?thesis by (simp add: processed_lines_def lines_loop_append)
qed

theorem fate_of_line_is_local_witness:
  "processed_lines (join_nl ([py ''/*'', py '' * text''] @ py ''  // gone'' # [py ''let x;'', py ''*/'']))
     = [py ''/*'', py '' * text'', py ''let x;'', py ''*/'']"
proof -
  have h: "\<forall>x\<in>set ([py ''/*'', py '' * text''] @ py ''  // gone'' # [py ''let x;'', py ''*/'']).
             10 \<notin> set x"
    by (simp add: py_def)
  show ?thesis
    using fate_of_line_is_local [OF h]
    by (simp add: py_def startswith_def lstrip_def strip_def isspace_def)
qed

section \<open>A file that is one comment\<close>

text \<open>
  C9.  For the content \<open>// note\<close>, with or without a newline after it, the filter
  yields the empty text, and a readable and writable file holding that content is
  rewritten to hold the empty text, whatever its path is.  The call returns normally
  when the stream can print the line \<open>Processed: <path>\<close>.
\<close>

theorem note_only_file_emptied:
  assumes "content = py ''// note'' \<or> content = py ''// note'' @ [10]"
    and "text_of (files w file_path) = Inr content"
    and "wfault (files w file_path) = No_fault"
  shows "processed_content content = []
       \<and> text_of (files (snd (remove_inline_comments file_path w)) file_path) = Inr []
       \<and> (printable w (py ''Processed: '' @ file_path) \<longrightarrow>
            fst (remove_inline_comments file_path w) = Inr ())"
proof -
  have "processed_content (py ''// note'') = []"
    by (simp add: processed_content_def processed_lines_def py_def startswith_def strip_def
        isspace_def)
  moreover have "processed_content (py ''// note'' @ [10]) = []"
    by (simp add: processed_content_def processed_lines_def py_def startswith_def strip_def
        isspace_def)
  ultimately have e: "processed_content content = []" using assms(1) by blast
  then show ?thesis
    using assms(2,3)
    by (simp add: remove_inline_comments_def Let_def print_def printable_def)
qed

theorem note_only_file_emptied_witness:
  "processed_content (py ''// note'' @ [10]) = []
   \<and> text_of (files (snd (remove_inline_comments (py ''a.ts'')
        \<lparr>files = (\<lambda>p. \<lparr>text_of = Inr (py ''// note'' @ [10]), wfault = No_fault\<rparr>),
         stdout = [], calls = [], stdout_encodes = utf8_strict,
         encode_error = (\<lambda>l. py ''not allowed'')\<rparr>)) (py ''a.ts'')) = Inr []
   \<and> fst (remove_inline_comments (py ''a.ts'')
        \<lparr>files = (\<lambda>p. \<lparr>text_of = Inr (py ''// note'' @ [10]), wfault = No_fault\<rparr>),
         stdout = [], calls = [], stdout_encodes = utf8_strict,
         encode_error = (\<lambda>l. py ''not allowed'')\<rparr>) = Inr ()"
proof -
  let ?w = "\<lparr>files = (\<lambda>p. \<lparr>text_of = Inr (py ''// note'' @ [10]), wfault = No_fault\<rparr>),
         stdout = [], calls = [], stdout_encodes = utf8_strict,
         encode_error = (\<lambda>l. py ''not allowed'')\<rparr>"
  have 1: "py ''// note'' @ [10] = py ''// note'' \<or> py ''// note'' @ [10] = py ''// note'' @ [10]"
    by simp
  have 2: "text_of (files ?w (py ''a.ts'')) = Inr (py ''// note'' @ [10])"
    by simp
  have 3: "wfault (files ?w (py ''a.ts'')) = No_fault"
    by simp
  have 4: "printable ?w (py ''Processed: '' @ py ''a.ts'')"
    by (simp add: printable_def py_def)
  from note_only_file_emptied [OF 1 2 3] 4 show ?thesis by blast
qed

section \<open>What a run prints and touches\<close>








lemma files_loop_no_match:
  "\<forall>f\<in>set fnames. \<not> endswith f (py ''.ts'') \<and> \<not> endswith f (py ''.js'') \<Longrightarrow>
     files_loop root fnames w = (Inr (), w)"
  by (induction fnames) simp_all

lemma walk_loop_no_match:
  "\<forall>(root, dirs, fnames)\<in>set triples.
      \<forall>f\<in>set fnames. \<not> endswith f (py ''.ts'') \<and> \<not> endswith f (py ''.js'') \<Longrightarrow>
     walk_loop triples w = (Inr (), w)"
proof (induction triples)
  case Nil
  show ?case by simp
next
  case (Cons t rest)
  obtain root dirs fnames where t: "t = (root, dirs, fnames)" by (cases t)
  from Cons.prems have "files_loop root fnames w = (Inr (), w)"
    by (simp add: t files_loop_no_match)
  moreover from Cons have "walk_loop rest w = (Inr (), w)" by simp
  ultimately show ?case by (simp add: t)
qed

text \<open>
  C6.  When \<open>sys.argv\<close> does not have exactly two entries (the program and one
  directory), the run prints the usage line, ends with status 1, calls the filter on
  no file and leaves every file as it was.
\<close>

theorem usage_on_wrong_argument_count:
  assumes "length argv \<noteq> 2"
  shows "fst (main argv walk w) = 1
       \<and> stdout (snd (main argv walk w)) =
           stdout w @ [py ''Usage: python remove_inline_comments.py <directory>'']
       \<and> files (snd (main argv walk w)) = files w
       \<and> calls (snd (main argv walk w)) = calls w"
  using assms by (simp add: main_def print_def printable_def py_def)

theorem usage_on_wrong_argument_count_witness:
  "fst (main [py ''prog''] (\<lambda>d. [(d, [], [py ''a.ts''])])
         \<lparr>files = (\<lambda>p. \<lparr>text_of = Inr (py ''// x''), wfault = No_fault\<rparr>), stdout = [],
           calls = [], stdout_encodes = utf8_strict, encode_error = (\<lambda>l. py ''not allowed'')\<rparr>) = 1
   \<and> calls (snd (main [py ''prog''] (\<lambda>d. [(d, [], [py ''a.ts''])])
         \<lparr>files = (\<lambda>p. \<lparr>text_of = Inr (py ''// x''), wfault = No_fault\<rparr>), stdout = [],
           calls = [], stdout_encodes = utf8_strict, encode_error = (\<lambda>l. py ''not allowed'')\<rparr>)) = []
   \<and> fst (main [py ''prog'', py ''a'', py ''b''] (\<lambda>d. [(d, [], [py ''a.ts''])])
         \<lparr>files = (\<lambda>p. \<lparr>text_of = Inr (py ''// x''), wfault = No_fault\<rparr>), stdout = [],
           calls = [], stdout_encodes = utf8_strict, encode_error = (\<lambda>l. py ''not allowed'')\<rparr>) = 1
   \<and> calls (snd (main [py ''prog'', py ''a'', py ''b''] (\<lambda>d. [(d, [], [py ''a.ts''])])
         \<lparr>files = (\<lambda>p. \<lparr>text_of = Inr (py ''// x''), wfault = No_fault\<rparr>), stdout = [],
           calls = [], stdout_encodes = utf8_strict, encode_error = (\<lambda>l. py ''not allowed'')\<rparr>)) = []"
proof -
  have z: "length [py ''prog''] \<noteq> 2" by simp
  have t: "length [py ''prog'', py ''a'', py ''b''] \<noteq> 2" by simp
  show ?thesis
    using usage_on_wrong_argument_count [OF z] usage_on_wrong_argument_count [OF t]
    by simp
qed




text \<open>
  C8.  When no file name that the walk lists ends in \<open>.ts\<close> or \<open>.js\<close>, running the
  program on the directory leaves the world as it was: no call of the filter, no output,
  no file changed, exit status 0.
\<close>

theorem no_matching_file_nothing_done:
  assumes "\<forall>(root, dirs, fnames)\<in>set (walk directory).
             \<forall>f\<in>set fnames. \<not> endswith f (py ''.ts'') \<and> \<not> endswith f (py ''.js'')"
  shows "main [prog, directory] walk w = (0, w)"
  using walk_loop_no_match [OF assms, of w] by (simp add: main_def)

theorem no_matching_file_nothing_done_witness:
  "main [py ''prog'', py ''docs'']
     (\<lambda>d. [(d, [py ''a.ts''], [py ''readme.md'', py ''ts'']), (d @ py ''/a.ts'', [], [py ''notes.txt''])])
     \<lparr>files = (\<lambda>p. \<lparr>text_of = Inr (py ''// x''), wfault = No_fault\<rparr>), stdout = [],
           calls = [], stdout_encodes = utf8_strict, encode_error = (\<lambda>l. py ''not allowed'')\<rparr>
   = (0, \<lparr>files = (\<lambda>p. \<lparr>text_of = Inr (py ''// x''), wfault = No_fault\<rparr>), stdout = [],
           calls = [], stdout_encodes = utf8_strict, encode_error = (\<lambda>l. py ''not allowed'')\<rparr>)"
proof -
  have h: "\<forall>(root, dirs, fnames)\<in>set ((\<lambda>d. [(d, [py ''a.ts''], [py ''readme.md'', py ''ts'']),
                (d @ py ''/a.ts'', [], [py ''notes.txt''])]) (py ''docs'')).
             \<forall>f\<in>set fnames. \<not> endswith f (py ''.ts'') \<and> \<not> endswith f (py ''.js'')"
    by (simp add: endswith_def py_def)
  show ?thesis
    by (rule no_matching_file_nothing_done
        [where walk = "\<lambda>d. [(d, [py ''a.ts''], [py ''readme.md'', py ''ts'']),
                (d @ py ''/a.ts'', [], [py ''notes.txt''])]" and directory = "py ''docs''", OF h])
qed

end
